theory Spec2Isabelle
  imports Main "HOL-Library.Word"
begin

section \<open>Strings\<close>

text \<open>
  Strings are lists of characters. The operations below are the ones the sources apply
  to paths and messages: JavaScript's \<^verbatim>\<open>toLowerCase\<close>, \<^verbatim>\<open>includes\<close>, \<^verbatim>\<open>split(sep)[0]\<close> and
  \<^verbatim>\<open>split('/').pop()\<close>, and Rust's decimal formatting of an integer. \<^verbatim>\<open>toLowerCase\<close> is
  modelled on the ASCII letters, which is what the three search patterns of
  \<^verbatim>\<open>shouldAutoReload\<close> consist of.
\<close>

definition lower_char :: "char \<Rightarrow> char" where
  "lower_char c =
     (let n = (of_char c :: nat) in if 65 \<le> n \<and> n \<le> 90 then char_of (n + 32) else c)"

definition toLowerCase :: "string \<Rightarrow> string" where
  "toLowerCase s = map lower_char s"

fun starts_with :: "string \<Rightarrow> string \<Rightarrow> bool" where
  "starts_with [] s = True"
| "starts_with (p # ps) [] = False"
| "starts_with (p # ps) (c # cs) = (p = c \<and> starts_with ps cs)"

text \<open>\<open>includes_str s pat\<close> is \<^verbatim>\<open>s.includes(pat)\<close>: \<open>pat\<close> occurs in \<open>s\<close> as a substring.\<close>

fun includes_str :: "string \<Rightarrow> string \<Rightarrow> bool" where
  "includes_str [] pat = (pat = [])"
| "includes_str (c # cs) pat = (starts_with pat (c # cs) \<or> includes_str cs pat)"

text \<open>
  \<open>before_first sep s\<close> is \<^verbatim>\<open>s.split(sep)[0]\<close> for a non-empty separator: the part of \<open>s\<close>
  before the first occurrence of \<open>sep\<close>, and all of \<open>s\<close> when \<open>sep\<close> does not occur.
\<close>

fun before_first :: "string \<Rightarrow> string \<Rightarrow> string" where
  "before_first sep [] = []"
| "before_first sep (c # cs) =
     (if starts_with sep (c # cs) then [] else c # before_first sep cs)"

text \<open>\<open>last_segment s\<close> is \<^verbatim>\<open>s.split('/').pop()\<close>: what follows the last slash.\<close>

definition last_segment :: "string \<Rightarrow> string" where
  "last_segment s = rev (takeWhile (\<lambda>c. c \<noteq> CHR ''/'') (rev s))"

fun string_of_nat :: "nat \<Rightarrow> string" where
  "string_of_nat n =
     (if n < 10 then [char_of (48 + n)]
      else string_of_nat (n div 10) @ [char_of (48 + n mod 10)])"

declare string_of_nat.simps [simp del]

section \<open>The configuration store (src/lib/stores/config.ts)\<close>

datatype ServerStatusTag = running | stopped | error_status

record McpServerConfig =
  msc_port :: int
  msc_status :: ServerStatusTag

record RepositoryConfig =
  rc_id :: string
  rc_name :: string
  rc_path :: string
  rc_is_active :: bool
  rc_last_updated :: string
  rc_mcp_server :: "McpServerConfig option"

record AppConfig =
  repositories :: "RepositoryConfig list"
  last_opened_repository :: "string option"
  theme :: string
  auto_start_servers :: bool

text \<open>\<^verbatim>\<open>Array.prototype.findIndex\<close>: the first index whose element satisfies \<open>P\<close>, or \<open>-1\<close>.\<close>

fun findIndex :: "('a \<Rightarrow> bool) \<Rightarrow> 'a list \<Rightarrow> int" where
  "findIndex P [] = - 1"
| "findIndex P (x # xs) =
     (if P x then 0 else (let i = findIndex P xs in if i = - 1 then - 1 else i + 1))"

text \<open>
  The updater that \<^verbatim>\<open>ConfigAPI.addRepository\<close> passes to \<^verbatim>\<open>appConfig.update\<close>. The index
  written to is the one \<^verbatim>\<open>findIndex\<close> returned, so it is within the copied array.
\<close>

definition addRepository_update :: "RepositoryConfig \<Rightarrow> AppConfig \<Rightarrow> AppConfig" where
  "addRepository_update repository config =
     (let existingIndex = findIndex (\<lambda>r. rc_id r = rc_id repository) (repositories config);
          updatedRepositories =
            (if existingIndex \<noteq> - 1
             then (repositories config)[nat existingIndex := repository]
             else repositories config @ [repository])
      in config\<lparr>repositories := updatedRepositories\<rparr>)"

text \<open>
  \<^verbatim>\<open>ConfigAPI.addRepository\<close>. The Tauri command \<^verbatim>\<open>add_repository_config\<close> is the parameter
  \<open>add_repository_config\<close>; when it rejects, the error is rethrown (\<open>Inl\<close>) and the store
  is not touched.
\<close>

definition addRepository ::
  "(RepositoryConfig \<Rightarrow> string + unit) \<Rightarrow> RepositoryConfig \<Rightarrow> AppConfig
     \<Rightarrow> (string + unit) \<times> AppConfig" where
  "addRepository add_repository_config repository appConfig_store =
     (case add_repository_config repository of
        Inl err \<Rightarrow> (Inl err, appConfig_store)
      | Inr _ \<Rightarrow> (Inr (), addRepository_update repository appConfig_store))"

section \<open>The agent library\<close>

text \<open>
  The parsed library as the Rust sources use it: \<^verbatim>\<open>AgentLibrary { name, description, prompts }\<close>.
  The handlers of the MCP server read \<^verbatim>\<open>prompt.name\<close>, \<^verbatim>\<open>prompt.description\<close> and
  \<^verbatim>\<open>prompt.content\<close>; \<open>p_name\<close> is the prompt's identifier (the \<^verbatim>\<open>id\<close> of an index entry).
\<close>

record Prompt =
  p_name :: string
  p_title :: string
  p_description :: string
  p_category :: string
  p_content :: string

record AgentLibrary =
  al_name :: string
  al_description :: string
  al_prompts :: "Prompt list"

section \<open>The file watcher store (src/lib/stores/fileWatcher.ts)\<close>

datatype ChangeType = Created | Modified | Deleted | Renamed

record FileChangeEvent =
  repository_id :: string
  file_path :: string
  change_type :: ChangeType
  timestamp :: string

record WatchedRepository =
  wr_repository_id :: string
  is_watching :: bool
  last_change :: "FileChangeEvent option"

datatype NotificationType = success | error | info

text \<open>
  The message templates of the notifications, each with the values interpolated into it;
  the fixed text around them is not reproduced.
\<close>

datatype NotificationMessage =
    AutoUpdated
  | AutoUpdateFailed string string
  | FileChanged string ChangeType

record Notification =
  n_type :: NotificationType
  n_message :: NotificationMessage

text \<open>
  The Svelte stores. A store's subscribers are part of its state: \<^verbatim>\<open>subscribe(cb)\<close> calls
  \<open>cb\<close> at once with the current value and again on every later change. The listener
  subscribes one closure per delivered event to \<^verbatim>\<open>autoReloadEnabled\<close> and never
  unsubscribes it; each closure is determined by the event it captured, so the
  subscriber list is a list of events.
\<close>

record stores =
  fileChangeEvents :: "FileChangeEvent list"
  watchedRepositories :: "WatchedRepository list"
  autoReloadEnabled :: bool
  autoReload_subscribers :: "FileChangeEvent list"
  notification :: "Notification option"
  appConfig :: AppConfig

text \<open>
  The Tauri side as the store reaches it through \<^verbatim>\<open>invoke\<close>. \<open>config_load\<close> is what
  \<^verbatim>\<open>load_app_config\<close> answers, \<open>reload_calls\<close> records every invocation of
  \<^verbatim>\<open>reload_agent_library\<close> by the store with its arguments, and \<open>instances\<close> is the
  registry of running servers with the snapshot each one serves.
\<close>

record ServerInstance =
  inst_port :: "16 word"
  current_snapshot :: AgentLibrary

record backend =
  instances :: "string \<rightharpoonup> ServerInstance"
  reload_calls :: "(string \<times> string) list"
  config_load :: "string + AppConfig"

text \<open>
  Modelled from the spec: the Tauri command \<^verbatim>\<open>reload_agent_library\<close> that
  \<^verbatim>\<open>FileWatcherAPI.reloadAgentLibrary\<close> invokes is not among the sources. Following the
  Library Refresh Coordinator of the specification, it re-parses the library at the given
  path; a parse failure leaves the served snapshot untouched and is reported to the
  caller, a parse success swaps the snapshot of the live instance of that repository if
  there is one and is a no-op otherwise. It never adds or removes an instance. The
  parser is the parameter \<open>parse\<close>.
\<close>

definition reload_agent_library ::
  "(string \<Rightarrow> string + AgentLibrary) \<Rightarrow> string \<Rightarrow> string \<Rightarrow> backend
     \<Rightarrow> (string + unit) \<times> backend" where
  "reload_agent_library parse repositoryId repositoryPath b =
     (case parse repositoryPath of
        Inl err \<Rightarrow> (Inl err, b)
      | Inr lib \<Rightarrow>
          (Inr (),
           case instances b repositoryId of
             None \<Rightarrow> b
           | Some inst \<Rightarrow>
               b\<lparr>instances := (instances b)(repositoryId \<mapsto> inst\<lparr>current_snapshot := lib\<rparr>)\<rparr>))"

text \<open>
  \<^verbatim>\<open>ConfigAPI.getCurrentConfig\<close>: the configuration loaded from the backend, which is also
  written to the store; when loading fails, the store's current value.
\<close>

definition getCurrentConfig :: "stores \<times> backend \<Rightarrow> AppConfig \<times> stores" where
  "getCurrentConfig s =
     (case config_load (snd s) of
        Inr config \<Rightarrow> (config, (fst s)\<lparr>appConfig := config\<rparr>)
      | Inl err \<Rightarrow> (appConfig (fst s), fst s))"

text \<open>
  The \<^verbatim>\<open>invoke('reload_agent_library', ...)\<close> call of \<^verbatim>\<open>reloadAgentLibrary\<close> and the success
  notification after it. The invocation is recorded in \<open>reload_calls\<close> before the
  command runs; a rejected promise is the thrown value \<open>Inl\<close>.
\<close>

definition invoke_reload ::
  "(string \<Rightarrow> string + AgentLibrary) \<Rightarrow> string \<Rightarrow> string \<Rightarrow> stores \<times> backend
     \<Rightarrow> (string + unit) \<times> stores \<times> backend" where
  "invoke_reload parse repositoryId repoPath s =
     (let b1 = (snd s)\<lparr>reload_calls := reload_calls (snd s) @ [(repositoryId, repoPath)]\<rparr>
      in case reload_agent_library parse repositoryId repoPath b1 of
           (Inl err, b') \<Rightarrow> (Inl err, (fst s, b'))
         | (Inr _, b') \<Rightarrow>
             (Inr (),
              ((fst s)\<lparr>notification := Some \<lparr>n_type = success, n_message = AutoUpdated\<rparr>\<rparr>,
               b')))"

text \<open>
  The \<^verbatim>\<open>try\<close> block of \<^verbatim>\<open>FileWatcherAPI.reloadAgentLibrary\<close>. \<^verbatim>\<open>!repoPath\<close> holds for a
  missing argument and for the empty string; then the path is looked up in the
  configuration, and a repository that is not there throws.
\<close>

definition reloadAgentLibrary_try ::
  "(string \<Rightarrow> string + AgentLibrary) \<Rightarrow> string \<Rightarrow> string option \<Rightarrow> stores \<times> backend
     \<Rightarrow> (string + unit) \<times> stores \<times> backend" where
  "reloadAgentLibrary_try parse repositoryId repositoryPath s =
     (if repositoryPath = None \<or> repositoryPath = Some []
      then (let (config, f1) = getCurrentConfig s
            in case find (\<lambda>r. rc_id r = repositoryId) (repositories config) of
                 None \<Rightarrow>
                   (Inl (''Error: Repository '' @ repositoryId @ '' not found''), (f1, snd s))
               | Some repository \<Rightarrow>
                   invoke_reload parse repositoryId (rc_path repository) (f1, snd s))
      else invoke_reload parse repositoryId (the repositoryPath) s)"

text \<open>
  \<^verbatim>\<open>FileWatcherAPI.reloadAgentLibrary\<close>: the \<^verbatim>\<open>catch\<close> clause turns every thrown value into
  an error notification and does not rethrow, so the function has no error result.
\<close>

definition reloadAgentLibrary ::
  "(string \<Rightarrow> string + AgentLibrary) \<Rightarrow> string \<Rightarrow> string option \<Rightarrow> stores \<times> backend
     \<Rightarrow> stores \<times> backend" where
  "reloadAgentLibrary parse repositoryId repositoryPath s =
     (case reloadAgentLibrary_try parse repositoryId repositoryPath s of
        (Inl err, (f', b')) \<Rightarrow>
          (f'\<lparr>notification :=
                Some \<lparr>n_type = error, n_message = AutoUpdateFailed repositoryId err\<rparr>\<rparr>, b')
      | (Inr _, s') \<Rightarrow> s')"

definition importantFiles :: "string list" where
  "importantFiles = [''agent_index.yml'', ''agent_index.yaml'', ''.md'']"

definition shouldAutoReload :: "FileChangeEvent \<Rightarrow> bool" where
  "shouldAutoReload event =
     list_ex (\<lambda>pattern. includes_str (toLowerCase (file_path event)) (toLowerCase pattern))
       importantFiles"

definition showChangeNotification :: "FileChangeEvent \<Rightarrow> stores \<Rightarrow> stores" where
  "showChangeNotification event f =
     (let fileName = (if last_segment (file_path event) = [] then file_path event
                      else last_segment (file_path event))
      in if shouldAutoReload event
         then f\<lparr>notification :=
                  Some \<lparr>n_type = info, n_message = FileChanged fileName (change_type event)\<rparr>\<rparr>
         else f)"

text \<open>
  The closure subscribed to \<^verbatim>\<open>autoReloadEnabled\<close> for one event, called with the store's
  value \<open>enabled\<close>.
\<close>

definition autoReload_callback ::
  "(string \<Rightarrow> string + AgentLibrary) \<Rightarrow> FileChangeEvent \<Rightarrow> bool \<Rightarrow> stores \<times> backend
     \<Rightarrow> stores \<times> backend" where
  "autoReload_callback parse event enabled s =
     (if enabled \<and> shouldAutoReload event
      then (let repositoryPath = before_first ''/.agent_library'' (file_path event)
            in reloadAgentLibrary parse (repository_id event) (Some repositoryPath) s)
      else s)"

text \<open>
  The callback that \<^verbatim>\<open>initializeEventListener\<close> registers for \<^verbatim>\<open>file-change\<close>, run on one
  event. \<^verbatim>\<open>reloadAgentLibrary\<close> is asynchronous and is not awaited: it sets its notification
  when its promise settles, after the synchronous rest of the callback, so its effect is
  sequenced after \<^verbatim>\<open>showChangeNotification\<close>.
\<close>

definition file_change_listener ::
  "(string \<Rightarrow> string + AgentLibrary) \<Rightarrow> FileChangeEvent \<Rightarrow> stores \<times> backend
     \<Rightarrow> stores \<times> backend" where
  "file_change_listener parse payload s =
     (let f = fst s;
          f1 = f\<lparr>fileChangeEvents := take 100 (payload # fileChangeEvents f)\<rparr>;
          f2 = f1\<lparr>watchedRepositories :=
                    map (\<lambda>repo. if wr_repository_id repo = repository_id payload
                                 then repo\<lparr>last_change := Some payload\<rparr> else repo)
                      (watchedRepositories f1)\<rparr>;
          f3 = f2\<lparr>autoReload_subscribers := autoReload_subscribers f2 @ [payload]\<rparr>;
          f4 = showChangeNotification payload f3
      in autoReload_callback parse payload (autoReloadEnabled f4) (f4, snd s))"

text \<open>Delivery of a sequence of events, oldest first.\<close>

definition deliver_all ::
  "(string \<Rightarrow> string + AgentLibrary) \<Rightarrow> FileChangeEvent list \<Rightarrow> stores \<times> backend
     \<Rightarrow> stores \<times> backend" where
  "deliver_all parse events s = foldl (\<lambda>s' ev. file_change_listener parse ev s') s events"

text \<open>
  \<^verbatim>\<open>FileWatcherAPI.toggleAutoReload\<close>: the store changes value, so every subscribed closure
  runs with the new value.
\<close>

definition toggleAutoReload ::
  "(string \<Rightarrow> string + AgentLibrary) \<Rightarrow> stores \<times> backend \<Rightarrow> stores \<times> backend" where
  "toggleAutoReload parse s =
     (let enabled = \<not> autoReloadEnabled (fst s);
          f1 = (fst s)\<lparr>autoReloadEnabled := enabled\<rparr>
      in foldl (\<lambda>s' ev. autoReload_callback parse ev enabled s') (f1, snd s)
           (autoReload_subscribers f1))"

text \<open>The stores as the module initialises them.\<close>

definition initial_stores :: stores where
  "initial_stores =
     \<lparr>fileChangeEvents = [], watchedRepositories = [], autoReloadEnabled = True,
      autoReload_subscribers = [], notification = None,
      appConfig = \<lparr>repositories = [], last_opened_repository = None, theme = ''light'',
                   auto_start_servers = True\<rparr>\<rparr>"

section \<open>The JSON-RPC engine (.agent_library/RUST_MCP_SERVER.md)\<close>

text \<open>
  \<^verbatim>\<open>serde_json::Value\<close>. An object is kept as its list of members in the order the
  serialised struct declares them.
\<close>

datatype json =
    JNull
  | JBool bool
  | JNumber int
  | JString string
  | JArray "json list"
  | JObject "(string \<times> json) list"

record JsonRpcRequest =
  rq_jsonrpc :: string
  rq_id :: "json option"
  rq_method :: string
  rq_params :: "json option"

record JsonRpcError =
  code :: int
  message :: string
  data :: "json option"

record JsonRpcResponse =
  rs_jsonrpc :: string
  rs_id :: "json option"
  rs_result :: "json option"
  rs_error :: "JsonRpcError option"

record ServerInfo =
  info_name :: string
  info_version :: string

record McpServerState =
  agent_libraries :: "AgentLibrary list"
  server_info :: ServerInfo

definition McpServerState_new :: McpServerState where
  "McpServerState_new =
     \<lparr>agent_libraries = [],
      server_info = \<lparr>info_name = ''librarian-mcp-server'', info_version = ''1.0.0''\<rparr>\<rparr>"

definition handle_initialize :: "json option \<Rightarrow> McpServerState \<Rightarrow> JsonRpcError + json" where
  "handle_initialize params state =
     Inr (JObject
       [(''protocolVersion'', JString ''2024-11-05''),
        (''capabilities'', JObject
           [(''prompts'', JObject [(''listChanged'', JBool False)]),
            (''resources'', JObject [(''subscribe'', JBool False),
                                     (''listChanged'', JBool False)])]),
        (''serverInfo'', JObject
           [(''name'', JString (info_name (server_info state))),
            (''version'', JString (info_version (server_info state)))])])"

definition PromptInfo_json :: "Prompt \<Rightarrow> json" where
  "PromptInfo_json prompt =
     JObject [(''name'', JString (p_name prompt)),
              (''description'', JString (p_description prompt)),
              (''arguments'', JNull)]"

definition handle_prompts_list :: "json option \<Rightarrow> McpServerState \<Rightarrow> JsonRpcError + json" where
  "handle_prompts_list params state =
     Inr (JObject
       [(''prompts'',
         JArray (concat (map (\<lambda>library. map PromptInfo_json (al_prompts library))
                           (agent_libraries state))))])"

record PromptsGetParams =
  pgp_name :: string
  pgp_arguments :: "json option"

text \<open>The serialised \<^verbatim>\<open>PromptsGetResult\<close> built for the prompt that matched.\<close>

definition PromptsGetResult_json :: "Prompt \<Rightarrow> json" where
  "PromptsGetResult_json prompt =
     JObject
       [(''description'', JString (p_description prompt)),
        (''messages'',
         JArray [JObject [(''role'', JString ''user''),
                          (''content'', JObject [(''type'', JString ''text''),
                                                 (''text'', JString (p_content prompt))])]])]"

text \<open>
  The two nested \<^verbatim>\<open>for\<close> loops of \<^verbatim>\<open>handle_prompts_get\<close>: the first prompt, in library
  order and then prompt order, whose name is the requested one.
\<close>

primrec prompts_loop :: "string \<Rightarrow> Prompt list \<Rightarrow> Prompt option" where
  "prompts_loop n [] = None"
| "prompts_loop n (prompt # rest) = (if p_name prompt = n then Some prompt else prompts_loop n rest)"

primrec libraries_loop :: "string \<Rightarrow> AgentLibrary list \<Rightarrow> Prompt option" where
  "libraries_loop n [] = None"
| "libraries_loop n (library # rest) =
     (case prompts_loop n (al_prompts library) of
        Some prompt \<Rightarrow> Some prompt
      | None \<Rightarrow> libraries_loop n rest)"

text \<open>
  \<^verbatim>\<open>handle_prompts_get\<close>. Deserialising the parameters is the library call
  \<^verbatim>\<open>serde_json::from_value\<close>, the parameter \<open>from_value\<close>; its error is passed on by
  the \<^verbatim>\<open>?\<close> operator.
\<close>

definition handle_prompts_get ::
  "(json \<Rightarrow> JsonRpcError + PromptsGetParams) \<Rightarrow> json option \<Rightarrow> McpServerState
     \<Rightarrow> JsonRpcError + json" where
  "handle_prompts_get from_value params state =
     (case params of
        None \<Rightarrow> Inl \<lparr>code = - 32602, message = ''Invalid params'', data = None\<rparr>
      | Some v \<Rightarrow>
          (case from_value v of
             Inl err \<Rightarrow> Inl err
           | Inr ps \<Rightarrow>
               (case libraries_loop (pgp_name ps) (agent_libraries state) of
                  Some prompt \<Rightarrow> Inr (PromptsGetResult_json prompt)
                | None \<Rightarrow>
                    Inl \<lparr>code = - 32602,
                         message = ''Prompt '' @ [CHR 0x27] @ pgp_name ps @ [CHR 0x27]
                                   @ '' not found'',
                         data = None\<rparr>)))"

definition cors_headers :: "(string \<times> string) list" where
  "cors_headers =
     [(''Access-Control-Allow-Origin'', ''*''),
      (''Access-Control-Allow-Methods'', ''POST, GET, OPTIONS''),
      (''Access-Control-Allow-Headers'', ''Content-Type, Authorization'')]"

text \<open>The response each arm of the dispatcher builds from its handler's result.\<close>

definition to_response :: "JsonRpcRequest \<Rightarrow> JsonRpcError + json \<Rightarrow> JsonRpcResponse" where
  "to_response request r =
     (case r of
        Inr result \<Rightarrow>
          \<lparr>rs_jsonrpc = ''2.0'', rs_id = rq_id request, rs_result = Some result, rs_error = None\<rparr>
      | Inl err \<Rightarrow>
          \<lparr>rs_jsonrpc = ''2.0'', rs_id = rq_id request, rs_result = None, rs_error = Some err\<rparr>)"

text \<open>
  \<^verbatim>\<open>handle_jsonrpc\<close>. The source writes out the arms for \<^verbatim>\<open>initialize\<close> and
  \<^verbatim>\<open>prompts/list\<close> and notes that the other methods are implemented the same way; the
  methods of the server are \<^verbatim>\<open>initialize\<close>, \<^verbatim>\<open>prompts/list\<close>, \<^verbatim>\<open>prompts/get\<close>,
  \<^verbatim>\<open>resources/list\<close> and \<^verbatim>\<open>resources/read\<close>. The two resource handlers are not in the
  sources and are the parameters \<open>handle_resources_list\<close> and \<open>handle_resources_read\<close>.
  The last arm is the source's default arm.
\<close>

definition handle_jsonrpc ::
  "(json \<Rightarrow> JsonRpcError + PromptsGetParams)
     \<Rightarrow> (json option \<Rightarrow> McpServerState \<Rightarrow> JsonRpcError + json)
     \<Rightarrow> (json option \<Rightarrow> McpServerState \<Rightarrow> JsonRpcError + json)
     \<Rightarrow> McpServerState \<Rightarrow> JsonRpcRequest \<Rightarrow> (string \<times> string) list \<times> JsonRpcResponse" where
  "handle_jsonrpc from_value handle_resources_list handle_resources_read state request =
     (let response =
        (if rq_method request = ''initialize''
         then to_response request (handle_initialize (rq_params request) state)
         else if rq_method request = ''prompts/list''
         then to_response request (handle_prompts_list (rq_params request) state)
         else if rq_method request = ''prompts/get''
         then to_response request (handle_prompts_get from_value (rq_params request) state)
         else if rq_method request = ''resources/list''
         then to_response request (handle_resources_list (rq_params request) state)
         else if rq_method request = ''resources/read''
         then to_response request (handle_resources_read (rq_params request) state)
         else \<lparr>rs_jsonrpc = ''2.0'', rs_id = rq_id request, rs_result = None,
               rs_error = Some \<lparr>code = - 32601, message = ''Method not found'',
                                 data = None\<rparr>\<rparr>)
      in (cors_headers, response))"

section \<open>Port allocation (.agent_library/RUST_MCP_SERVER.md)\<close>

text \<open>The range \<^verbatim>\<open>9500..9600\<close> of \<^verbatim>\<open>u16\<close> values, upper bound excluded.\<close>

definition port_range :: "16 word list" where
  "port_range = map of_nat [9500..<9600]"

text \<open>
  The loop of \<^verbatim>\<open>find_available_port\<close> over the candidates that are left. \<open>can_bind\<close>
  tells whether \<^verbatim>\<open>TcpListener::bind\<close> on the loopback address succeeds for a port; the
  probing listener is dropped at once. Besides the result, the ports on which a bind was
  attempted are returned in the order of the attempts.
\<close>

fun probe_ports ::
  "(16 word \<Rightarrow> bool) \<Rightarrow> 16 word list \<Rightarrow> (string + 16 word) \<times> 16 word list" where
  "probe_ports can_bind [] = (Inl ''No available ports in range 9500-9599'', [])"
| "probe_ports can_bind (port # rest) =
     (if can_bind port then (Inr port, [port])
      else (let (r, probed) = probe_ports can_bind rest in (r, port # probed)))"

definition find_available_port ::
  "(16 word \<Rightarrow> bool) \<Rightarrow> (string + 16 word) \<times> 16 word list" where
  "find_available_port can_bind = probe_ports can_bind port_range"

section \<open>The server manager (Tauri command guide)\<close>

record McpServerHandle =
  port :: "16 word"
  handle :: nat
  repository_path :: string

text \<open>
  The \<^verbatim>\<open>ServerManager\<close> map together with what the commands do to the runtime: the tasks
  given to \<^verbatim>\<open>tokio::spawn\<close> (a task's handle is its position in \<open>spawned\<close>), the handles
  that were aborted, and every bind attempted while probing for a port.
\<close>

record manager =
  servers :: "string \<rightharpoonup> McpServerHandle"
  spawned :: "(16 word \<times> AgentLibrary) list"
  aborted :: "nat list"
  bind_attempts :: "16 word list"

text \<open>
  \<^verbatim>\<open>start_repository_mcp_server\<close>, run under the write lock. \<open>parse\<close> is
  \<^verbatim>\<open>parse_agent_library_internal\<close>.
\<close>

definition start_repository_mcp_server ::
  "(16 word \<Rightarrow> bool) \<Rightarrow> (string \<Rightarrow> string + AgentLibrary) \<Rightarrow> string \<Rightarrow> string \<Rightarrow> manager
     \<Rightarrow> (string + string) \<times> manager" where
  "start_repository_mcp_server can_bind parse repository_id' repo_path m =
     (if servers m repository_id' \<noteq> None
      then (Inr ''Server already running'', m)
      else
        (case find_available_port can_bind of
           (Inl err, probed) \<Rightarrow> (Inl err, m\<lparr>bind_attempts := bind_attempts m @ probed\<rparr>)
         | (Inr port', probed) \<Rightarrow>
             (let m1 = m\<lparr>bind_attempts := bind_attempts m @ probed\<rparr>
              in case parse repo_path of
                   Inl err \<Rightarrow> (Inl err, m1)
                 | Inr agent_library \<Rightarrow>
                     (let handle' = length (spawned m1);
                          m2 = m1\<lparr>spawned := spawned m1 @ [(port', agent_library)]\<rparr>;
                          m3 = m2\<lparr>servers := (servers m2)(repository_id' \<mapsto>
                                  \<lparr>port = port', handle = handle',
                                   repository_path = repo_path\<rparr>)\<rparr>
                      in (Inr (''MCP server started on port '' @ string_of_nat (unat port')),
                          m3)))))"

text \<open>
  \<^verbatim>\<open>stop_repository_mcp_server\<close>: \<^verbatim>\<open>servers.remove\<close> takes the entry out of the map and
  returns it, or returns nothing when the key is absent.
\<close>

definition stop_repository_mcp_server ::
  "string \<Rightarrow> manager \<Rightarrow> (string + string) \<times> manager" where
  "stop_repository_mcp_server repository_id' m =
     (let removed = servers m repository_id';
          m1 = m\<lparr>servers := (servers m)(repository_id' := None)\<rparr>
      in case removed of
           Some server \<Rightarrow> (Inr ''Server stopped'', m1\<lparr>aborted := handle server # aborted m1\<rparr>)
         | None \<Rightarrow> (Inl ''Server not found'', m1))"

section \<open>The refresh filter as the specification words it\<close>

text \<open>
  The specification's filter of the Library Refresh Coordinator, to be compared with
  \<open>shouldAutoReload\<close>: an event counts when its path is under a repository's
  \<^verbatim>\<open>.agent_library\<close> directory and its file name is the index file or has the markdown
  extension.
\<close>

definition ends_with :: "string \<Rightarrow> string \<Rightarrow> bool" where
  "ends_with s ending = starts_with (rev ending) (rev s)"

definition under_agent_library :: "string \<Rightarrow> bool" where
  "under_agent_library path = includes_str path ''/.agent_library/''"

definition index_or_markdown :: "string \<Rightarrow> bool" where
  "index_or_markdown path =
     (let fileName = last_segment path
      in fileName = ''agent_index.yml'' \<or> fileName = ''agent_index.yaml''
         \<or> ends_with fileName ''.md'')"

definition spec_filter :: "FileChangeEvent \<Rightarrow> bool" where
  "spec_filter event =
     (under_agent_library (file_path event) \<and> index_or_markdown (file_path event))"

section \<open>Sample inputs\<close>

text \<open>
  Concrete values on which the definitions are run: a deserialiser that accepts an
  object with a string member \<^verbatim>\<open>name\<close>, a library with the prompts \<^verbatim>\<open>a\<close> and \<^verbatim>\<open>b\<close>, a
  parser that knows one repository, and a backend serving an older snapshot of it.
\<close>

definition sample_from_value :: "json \<Rightarrow> JsonRpcError + PromptsGetParams" where
  "sample_from_value v =
     (case v of
        JObject members \<Rightarrow>
          (case map_of members ''name'' of
             Some (JString n) \<Rightarrow> Inr \<lparr>pgp_name = n, pgp_arguments = map_of members ''arguments''\<rparr>
           | _ \<Rightarrow> Inl \<lparr>code = - 32602, message = ''missing field name'', data = None\<rparr>)
      | _ \<Rightarrow> Inl \<lparr>code = - 32602, message = ''invalid type'', data = None\<rparr>)"

definition sample_library :: AgentLibrary where
  "sample_library =
     \<lparr>al_name = ''Sample'', al_description = ''Two prompts'',
      al_prompts =
        [\<lparr>p_name = ''a'', p_title = ''A'', p_description = ''first prompt'',
          p_category = ''guide'', p_content = ''# A''\<rparr>,
         \<lparr>p_name = ''b'', p_title = ''B'', p_description = ''second prompt'',
          p_category = ''guide'', p_content = ''# B''\<rparr>]\<rparr>"

definition old_library :: AgentLibrary where
  "old_library = \<lparr>al_name = ''Sample'', al_description = ''Old'', al_prompts = []\<rparr>"

definition sample_parse :: "string \<Rightarrow> string + AgentLibrary" where
  "sample_parse path =
     (if path = ''/work/repo'' then Inr sample_library else Inl ''agent_index.yml not found'')"

definition sample_backend :: backend where
  "sample_backend =
     \<lparr>instances = [''r1'' \<mapsto> \<lparr>inst_port = 9500, current_snapshot = old_library\<rparr>],
      reload_calls = [],
      config_load = Inl ''config unavailable''\<rparr>"

definition sample_event :: "string \<Rightarrow> string \<Rightarrow> FileChangeEvent" where
  "sample_event path time =
     \<lparr>repository_id = ''r1'', file_path = path, change_type = Modified, timestamp = time\<rparr>"

section \<open>Verified properties\<close>

subsection \<open>The configuration store\<close>

lemma findIndex_ge: "- 1 \<le> findIndex P xs"
  by (induction xs) (auto simp: Let_def)

lemma findIndex_none: "findIndex P xs = - 1 \<longleftrightarrow> (\<forall>x\<in>set xs. \<not> P x)"
proof (induction xs)
  case Nil
  show ?case by simp
next
  case (Cons x xs)
  have "- 1 \<le> findIndex P xs" by (rule findIndex_ge)
  then have "findIndex P xs + 1 \<noteq> - 1" by arith
  with Cons show ?case by (auto simp: Let_def)
qed

lemma findIndex_first:
  "i < length xs \<Longrightarrow> P (xs ! i) \<Longrightarrow> \<forall>j<i. \<not> P (xs ! j) \<Longrightarrow> findIndex P xs = int i"
proof (induction xs arbitrary: i)
  case Nil
  then show ?case by simp
next
  case (Cons x xs)
  show ?case
  proof (cases i)
    case 0
    with Cons.prems show ?thesis by simp
  next
    case (Suc k)
    have nx: "\<not> P x" using Cons.prems(3) Suc by force
    have "findIndex P xs = int k"
    proof (rule Cons.IH)
      show "k < length xs" using Cons.prems(1) Suc by simp
      show "P (xs ! k)" using Cons.prems(2) Suc by simp
      show "\<forall>j<k. \<not> P (xs ! j)" using Cons.prems(3) Suc by force
    qed
    with nx Suc show ?thesis by (simp add: Let_def)
  qed
qed

lemma findIndex_found:
  "findIndex P xs \<noteq> - 1 \<Longrightarrow>
   nat (findIndex P xs) < length xs \<and> P (xs ! nat (findIndex P xs))
   \<and> (\<forall>j < nat (findIndex P xs). \<not> P (xs ! j))"
proof (induction xs)
  case Nil
  then show ?case by simp
next
  case (Cons x xs)
  show ?case
  proof (cases "P x")
    case True
    then show ?thesis by simp
  next
    case False
    with Cons.prems have ne: "findIndex P xs \<noteq> - 1" by (auto simp: Let_def split: if_splits)
    have ge: "0 \<le> findIndex P xs" using findIndex_ge [of P xs] ne by arith
    have eq: "findIndex P (x # xs) = findIndex P xs + 1" using False ne by (simp add: Let_def)
    have n: "nat (findIndex P xs + 1) = Suc (nat (findIndex P xs))" using ge by simp
    from Cons.IH [OF ne] False show ?thesis
      by (auto simp del: findIndex.simps simp: eq n less_Suc_eq_0_disj)
  qed
qed

lemma update_same_id:
  "i < length rs \<Longrightarrow> rc_id (rs ! i) = rc_id r \<Longrightarrow> map rc_id (rs[i := r]) = map rc_id rs"
  by (simp add: map_update list_update_same_conv)

lemma addRepository_update_distinct:
  "distinct (map rc_id (repositories config)) \<Longrightarrow>
   distinct (map rc_id (repositories (addRepository_update r config)))"
proof (cases "findIndex (\<lambda>x. rc_id x = rc_id r) (repositories config) = - 1")
  case True
  assume d: "distinct (map rc_id (repositories config))"
  from True have "\<forall>x\<in>set (repositories config). rc_id x \<noteq> rc_id r"
    by (simp add: findIndex_none)
  with d True show ?thesis by (auto simp: addRepository_update_def)
next
  case False
  assume d: "distinct (map rc_id (repositories config))"
  from findIndex_found [OF False]
  have "map rc_id ((repositories config)[nat (findIndex (\<lambda>x. rc_id x = rc_id r) (repositories config)) := r])
        = map rc_id (repositories config)"
    by (intro update_same_id) auto
  with d False show ?thesis by (simp add: addRepository_update_def)
qed


text \<open>
  Claim C9. \<^verbatim>\<open>ConfigAPI.addRepository\<close> keeps repository ids unique. When the backend
  command succeeds, an entry whose id is already present is replaced at the first index
  that holds this id, otherwise the repository is appended at the end; every entry with
  another id stays where it is, and only the \<open>repositories\<close> field of the configuration
  changes. When the command fails, the error is rethrown and the store keeps its value.
  In every case, a list without two entries of the same id stays one.
\<close>

theorem addRepository_unique_ids:
  "(let rs = repositories config;
        res = addRepository add_repository_config r config;
        rs' = repositories (snd res)
    in (add_repository_config r = Inr () \<longrightarrow>
          fst res = Inr ()
          \<and> (\<forall>i. i < length rs \<and> rc_id (rs ! i) = rc_id r \<and> (\<forall>j<i. rc_id (rs ! j) \<noteq> rc_id r)
                 \<longrightarrow> rs' = rs[i := r])
          \<and> ((\<forall>x\<in>set rs. rc_id x \<noteq> rc_id r) \<longrightarrow> rs' = rs @ [r])
          \<and> (\<forall>j<length rs. rc_id (rs ! j) \<noteq> rc_id r \<longrightarrow> rs' ! j = rs ! j)
          \<and> snd res = config\<lparr>repositories := rs'\<rparr>)
       \<and> (\<forall>e. add_repository_config r = Inl e \<longrightarrow> res = (Inl e, config))
       \<and> (distinct (map rc_id rs) \<longrightarrow> distinct (map rc_id rs')))"
proof -
  let ?rs = "repositories config"
  let ?P = "\<lambda>x. rc_id x = rc_id r"
  let ?u = "addRepository_update r config"
  have a: "\<forall>i. i < length ?rs \<and> ?P (?rs ! i) \<and> (\<forall>j<i. \<not> ?P (?rs ! j))
              \<longrightarrow> repositories ?u = ?rs[i := r]"
  proof (intro allI impI)
    fix i assume h: "i < length ?rs \<and> ?P (?rs ! i) \<and> (\<forall>j<i. \<not> ?P (?rs ! j))"
    then have "findIndex ?P ?rs = int i" by (intro findIndex_first) auto
    then show "repositories ?u = ?rs[i := r]" by (simp add: addRepository_update_def)
  qed
  have b: "(\<forall>x\<in>set ?rs. \<not> ?P x) \<longrightarrow> repositories ?u = ?rs @ [r]"
    using findIndex_none [of ?P ?rs] by (simp add: addRepository_update_def)
  have c: "\<forall>j<length ?rs. \<not> ?P (?rs ! j) \<longrightarrow> repositories ?u ! j = ?rs ! j"
  proof (intro allI impI)
    fix j assume j: "j < length ?rs" and n: "\<not> ?P (?rs ! j)"
    show "repositories ?u ! j = ?rs ! j"
    proof (cases "findIndex ?P ?rs = - 1")
      case True
      with j show ?thesis by (simp add: addRepository_update_def nth_append)
    next
      case False
      from findIndex_found [OF False] n have "nat (findIndex ?P ?rs) \<noteq> j" by auto
      with False show ?thesis by (simp add: addRepository_update_def)
    qed
  qed
  have d: "?u = config\<lparr>repositories := repositories ?u\<rparr>"
    by (simp add: addRepository_update_def Let_def)
  have e: "distinct (map rc_id ?rs) \<longrightarrow>
           distinct (map rc_id (repositories (snd (addRepository add_repository_config r config))))"
    using addRepository_update_distinct [of config r]
    by (simp add: addRepository_def split: sum.splits)
  show ?thesis
    unfolding Let_def
    using a b c d e by (simp add: addRepository_def split: sum.splits)
qed

theorem addRepository_unique_ids_witness:
  "repositories (snd (addRepository (\<lambda>_. Inr ())
      \<lparr>rc_id = ''b'', rc_name = ''B2'', rc_path = ''/b2'', rc_is_active = True,
       rc_last_updated = ''t1'', rc_mcp_server = None\<rparr>
      \<lparr>repositories =
         [\<lparr>rc_id = ''a'', rc_name = ''A'', rc_path = ''/a'', rc_is_active = True,
           rc_last_updated = ''t0'', rc_mcp_server = None\<rparr>,
          \<lparr>rc_id = ''b'', rc_name = ''B'', rc_path = ''/b'', rc_is_active = False,
           rc_last_updated = ''t0'', rc_mcp_server = None\<rparr>],
       last_opened_repository = None, theme = ''light'', auto_start_servers = True\<rparr>))
   = [\<lparr>rc_id = ''a'', rc_name = ''A'', rc_path = ''/a'', rc_is_active = True,
       rc_last_updated = ''t0'', rc_mcp_server = None\<rparr>,
      \<lparr>rc_id = ''b'', rc_name = ''B2'', rc_path = ''/b2'', rc_is_active = True,
       rc_last_updated = ''t1'', rc_mcp_server = None\<rparr>]"
  using addRepository_unique_ids [of
      "\<lparr>repositories =
         [\<lparr>rc_id = ''a'', rc_name = ''A'', rc_path = ''/a'', rc_is_active = True,
           rc_last_updated = ''t0'', rc_mcp_server = None\<rparr>,
          \<lparr>rc_id = ''b'', rc_name = ''B'', rc_path = ''/b'', rc_is_active = False,
           rc_last_updated = ''t0'', rc_mcp_server = None\<rparr>],
       last_opened_repository = None, theme = ''light'', auto_start_servers = True\<rparr>"
      "\<lambda>_. Inr ()"
      "\<lparr>rc_id = ''b'', rc_name = ''B2'', rc_path = ''/b2'', rc_is_active = True,
       rc_last_updated = ''t1'', rc_mcp_server = None\<rparr>"]
  by (simp add: Let_def addRepository_def addRepository_update_def)

subsection \<open>The list of file-change events\<close>

lemma getCurrentConfig_events [simp]:
  "fileChangeEvents (snd (getCurrentConfig s)) = fileChangeEvents (fst s)"
  by (simp add: getCurrentConfig_def split: sum.splits)

lemma invoke_reload_events [simp]:
  "fileChangeEvents (fst (snd (invoke_reload parse i p s))) = fileChangeEvents (fst s)"
  by (simp add: invoke_reload_def split: sum.splits prod.splits)

lemma reloadAgentLibrary_try_events [simp]:
  "fileChangeEvents (fst (snd (reloadAgentLibrary_try parse i po s))) = fileChangeEvents (fst s)"
  by (simp add: reloadAgentLibrary_try_def Let_def split: option.splits prod.splits)
     (metis getCurrentConfig_events snd_conv)

lemma reloadAgentLibrary_events [simp]:
  "fileChangeEvents (fst (reloadAgentLibrary parse i po s)) = fileChangeEvents (fst s)"
proof -
  obtain r f' b' where t: "reloadAgentLibrary_try parse i po s = (r, (f', b'))"
    by (metis prod.exhaust)
  have "fileChangeEvents f' = fileChangeEvents (fst s)"
    using reloadAgentLibrary_try_events [of parse i po s] t by simp
  then show ?thesis
    by (cases r) (simp_all add: reloadAgentLibrary_def t)
qed

lemma autoReload_callback_events [simp]:
  "fileChangeEvents (fst (autoReload_callback parse ev en s)) = fileChangeEvents (fst s)"
  by (simp add: autoReload_callback_def)

lemma showChangeNotification_events [simp]:
  "fileChangeEvents (showChangeNotification ev f) = fileChangeEvents f"
  by (simp add: showChangeNotification_def Let_def)

lemma listener_events:
  "fileChangeEvents (fst (file_change_listener parse ev s)) = take 100 (ev # fileChangeEvents (fst s))"
  by (simp add: file_change_listener_def Let_def)

lemma take_append_take: "n \<le> m \<Longrightarrow> take n (xs @ take m ys) = take n (xs @ ys)"
proof -
  assume "n \<le> m"
  then have "min (n - length xs) m = n - length xs" by arith
  then show ?thesis by simp
qed

lemma deliver_all_events:
  "length (fileChangeEvents (fst s)) \<le> 100 \<Longrightarrow>
   fileChangeEvents (fst (deliver_all parse evs s)) = take 100 (rev evs @ fileChangeEvents (fst s))"
proof (induction evs arbitrary: s)
  case Nil
  then show ?case by (simp add: deliver_all_def)
next
  case (Cons e evs)
  have step: "deliver_all parse (e # evs) s = deliver_all parse evs (file_change_listener parse e s)"
    by (simp add: deliver_all_def)
  have len: "length (fileChangeEvents (fst (file_change_listener parse e s))) \<le> 100"
    by (simp add: listener_events)
  have "take 100 (rev evs @ take 100 (e # fileChangeEvents (fst s)))
        = take 100 (rev evs @ e # fileChangeEvents (fst s))"
    by (rule take_append_take) simp
  then show ?case
    using Cons.IH [OF len] by (simp add: step listener_events)
qed


text \<open>
  Claim C10. Every delivery of a file-change event puts the event in front of
  \<open>fileChangeEvents\<close> and keeps the first 100 entries, so the newest event is first and
  the list never holds more than 100 events; after any sequence of deliveries to the
  initial stores the list is the (at most) 100 most recent events, newest first.
\<close>

theorem fileChangeEvents_at_most_100:
  "fileChangeEvents (fst (file_change_listener parse ev s)) = take 100 (ev # fileChangeEvents (fst s))
   \<and> hd (fileChangeEvents (fst (file_change_listener parse ev s))) = ev
   \<and> length (fileChangeEvents (fst (file_change_listener parse ev s))) \<le> 100
   \<and> fileChangeEvents (fst (deliver_all parse evs (initial_stores, b))) = take 100 (rev evs)
   \<and> length (fileChangeEvents (fst (deliver_all parse evs (initial_stores, b)))) \<le> 100"
  by (simp add: listener_events deliver_all_events initial_stores_def)

subsection \<open>The JSON-RPC engine\<close>

text \<open>
  Claim C3. A request whose method is none of \<^verbatim>\<open>initialize\<close>, \<^verbatim>\<open>prompts/list\<close>,
  \<^verbatim>\<open>prompts/get\<close>, \<^verbatim>\<open>resources/list\<close> and \<^verbatim>\<open>resources/read\<close> is answered with an error
  response that echoes the request id, carries no result, and whose error has code
  \<open>-32601\<close> and the message \<^verbatim>\<open>Method not found\<close>, whatever the resource handlers and the
  library state are.
\<close>

theorem unknown_method_not_found:
  "rq_method request \<notin> {''initialize'', ''prompts/list'', ''prompts/get'',
                          ''resources/list'', ''resources/read''} \<Longrightarrow>
   snd (handle_jsonrpc from_value handle_resources_list handle_resources_read state request)
   = \<lparr>rs_jsonrpc = ''2.0'', rs_id = rq_id request, rs_result = None,
      rs_error = Some \<lparr>code = - 32601, message = ''Method not found'', data = None\<rparr>\<rparr>"
  by (simp add: handle_jsonrpc_def)

theorem unknown_method_not_found_witness:
  "snd (handle_jsonrpc (\<lambda>_. Inl \<lparr>code = - 32603, message = ''bad'', data = None\<rparr>)
          (\<lambda>_ _. Inr JNull) (\<lambda>_ _. Inr JNull) McpServerState_new
          \<lparr>rq_jsonrpc = ''2.0'', rq_id = Some (JNumber 1), rq_method = ''invalid/method'',
           rq_params = None\<rparr>)
   = \<lparr>rs_jsonrpc = ''2.0'', rs_id = Some (JNumber 1), rs_result = None,
      rs_error = Some \<lparr>code = - 32601, message = ''Method not found'', data = None\<rparr>\<rparr>"
  using unknown_method_not_found [of
          "\<lparr>rq_jsonrpc = ''2.0'', rq_id = Some (JNumber 1), rq_method = ''invalid/method'',
           rq_params = None\<rparr>"
          "\<lambda>_. Inl \<lparr>code = - 32603, message = ''bad'', data = None\<rparr>"
          "\<lambda>_ _. Inr JNull" "\<lambda>_ _. Inr JNull" McpServerState_new]
  by simp

lemma prompts_loop_find: "prompts_loop n ps = find (\<lambda>p. p_name p = n) ps"
  by (induction ps) simp_all

lemma libraries_loop_find:
  "libraries_loop n ls = find (\<lambda>p. p_name p = n) (concat (map al_prompts ls))"
proof (induction ls)
  case Nil
  show ?case by simp
next
  case (Cons l ls)
  have f: "find (\<lambda>p. p_name p = n) (xs @ ys)
        = (case find (\<lambda>p. p_name p = n) xs of Some p \<Rightarrow> Some p
           | None \<Rightarrow> find (\<lambda>p. p_name p = n) ys)" for xs ys :: "Prompt list"
    by (induction xs) simp_all
  show ?case by (simp add: prompts_loop_find f Cons.IH split: option.splits)
qed

lemma find_distinct_names:
  "distinct (map p_name ps) \<Longrightarrow> p \<in> set ps \<Longrightarrow> find (\<lambda>q. p_name q = p_name p) ps = Some p"
  by (induction ps) (auto simp: rev_image_eqI)

text \<open>
  Claim C2. For a \<^verbatim>\<open>prompts/get\<close> request whose parameters deserialise with name \<open>n\<close>:
  when a prompt of the current libraries is named \<open>n\<close>, the result is the description of
  the first such prompt together with exactly one message, of role \<^verbatim>\<open>user\<close> and of type
  \<^verbatim>\<open>text\<close>, whose text is that prompt's content unchanged; with unique names this is the
  prompt named \<open>n\<close>. When no prompt is named \<open>n\<close>, the result is the error with code
  \<open>-32602\<close> and the message \<^verbatim>\<open>Prompt 'n' not found\<close>.
\<close>

theorem prompts_get_result:
  "from_value v = Inr ps \<Longrightarrow>
   (\<forall>prompt. find (\<lambda>p. p_name p = pgp_name ps) (concat (map al_prompts (agent_libraries state)))
              = Some prompt \<longrightarrow>
      handle_prompts_get from_value (Some v) state =
        Inr (JObject
          [(''description'', JString (p_description prompt)),
           (''messages'',
            JArray [JObject [(''role'', JString ''user''),
                             (''content'', JObject [(''type'', JString ''text''),
                                                    (''text'', JString (p_content prompt))])]])]))
   \<and> (\<forall>prompt \<in> set (concat (map al_prompts (agent_libraries state))).
        distinct (map p_name (concat (map al_prompts (agent_libraries state))))
        \<and> p_name prompt = pgp_name ps \<longrightarrow>
      handle_prompts_get from_value (Some v) state =
        Inr (JObject
          [(''description'', JString (p_description prompt)),
           (''messages'',
            JArray [JObject [(''role'', JString ''user''),
                             (''content'', JObject [(''type'', JString ''text''),
                                                    (''text'', JString (p_content prompt))])]])]))
   \<and> ((\<forall>prompt \<in> set (concat (map al_prompts (agent_libraries state))).
         p_name prompt \<noteq> pgp_name ps) \<longrightarrow>
      handle_prompts_get from_value (Some v) state =
        Inl \<lparr>code = - 32602,
             message = ''Prompt '' @ [CHR 0x27] @ pgp_name ps @ [CHR 0x27] @ '' not found'',
             data = None\<rparr>)"
proof -
  assume fv: "from_value v = Inr ps"
  let ?all = "concat (map al_prompts (agent_libraries state))"
  let ?f = "find (\<lambda>p. p_name p = pgp_name ps) ?all"
  have h: "handle_prompts_get from_value (Some v) state =
           (case ?f of
              Some prompt \<Rightarrow> Inr (PromptsGetResult_json prompt)
            | None \<Rightarrow> Inl \<lparr>code = - 32602,
                            message = ''Prompt '' @ [CHR 0x27] @ pgp_name ps @ [CHR 0x27] @ '' not found'',
                            data = None\<rparr>)"
    by (simp add: handle_prompts_get_def fv libraries_loop_find)
  have a: "\<And>prompt. ?f = Some prompt \<Longrightarrow>
             handle_prompts_get from_value (Some v) state = Inr (PromptsGetResult_json prompt)"
    by (simp add: h)
  have b: "\<And>prompt. prompt \<in> set ?all \<Longrightarrow> distinct (map p_name ?all) \<Longrightarrow>
             p_name prompt = pgp_name ps \<Longrightarrow> ?f = Some prompt"
    using find_distinct_names by metis
  have c: "(\<forall>prompt \<in> set ?all. p_name prompt \<noteq> pgp_name ps) \<Longrightarrow> ?f = None"
    unfolding find_None_iff by blast
  show ?thesis
    using a b c h unfolding PromptsGetResult_json_def by (auto simp del: set_concat)
qed

theorem prompts_get_result_witness:
  "sample_from_value (JObject [(''name'', JString ''a'')]) = Inr \<lparr>pgp_name = ''a'', pgp_arguments = None\<rparr>
   \<and> handle_prompts_get sample_from_value (Some (JObject [(''name'', JString ''a'')]))
        \<lparr>agent_libraries = [sample_library], server_info = server_info McpServerState_new\<rparr>
      = Inr (JObject
          [(''description'', JString ''first prompt''),
           (''messages'',
            JArray [JObject [(''role'', JString ''user''),
                             (''content'', JObject [(''type'', JString ''text''),
                                                    (''text'', JString ''# A'')])]])])
   \<and> handle_prompts_get sample_from_value (Some (JObject [(''name'', JString ''c'')]))
        \<lparr>agent_libraries = [sample_library], server_info = server_info McpServerState_new\<rparr>
      = Inl \<lparr>code = - 32602, message = ''Prompt '' @ [CHR 0x27] @ ''c'' @ [CHR 0x27] @ '' not found'',
             data = None\<rparr>"
proof -
  let ?st = "\<lparr>agent_libraries = [sample_library], server_info = server_info McpServerState_new\<rparr>"
  have a: "sample_from_value (JObject [(''name'', JString ''a'')])
           = Inr \<lparr>pgp_name = ''a'', pgp_arguments = None\<rparr>"
    by (simp add: sample_from_value_def)
  have c: "sample_from_value (JObject [(''name'', JString ''c'')])
           = Inr \<lparr>pgp_name = ''c'', pgp_arguments = None\<rparr>"
    by (simp add: sample_from_value_def)
  have ra: "handle_prompts_get sample_from_value (Some (JObject [(''name'', JString ''a'')])) ?st
      = Inr (JObject
          [(''description'', JString ''first prompt''),
           (''messages'',
            JArray [JObject [(''role'', JString ''user''),
                             (''content'', JObject [(''type'', JString ''text''),
                                                    (''text'', JString ''# A'')])]])])"
    using prompts_get_result [of sample_from_value "JObject [(''name'', JString ''a'')]"
            "\<lparr>pgp_name = ''a'', pgp_arguments = None\<rparr>" ?st] a
    by (simp add: sample_library_def)
  have rc: "handle_prompts_get sample_from_value (Some (JObject [(''name'', JString ''c'')])) ?st
      = Inl \<lparr>code = - 32602, message = ''Prompt '' @ [CHR 0x27] @ ''c'' @ [CHR 0x27] @ '' not found'',
             data = None\<rparr>"
    using prompts_get_result [of sample_from_value "JObject [(''name'', JString ''c'')]"
            "\<lparr>pgp_name = ''c'', pgp_arguments = None\<rparr>" ?st] c
    by (simp add: sample_library_def)
  from a ra rc show ?thesis by simp
qed

subsection \<open>Port allocation\<close>

lemma probe_ports_Inr:
  "probe_ports can_bind ps = (Inr p, probed) \<Longrightarrow>
   \<exists>i<length ps. p = ps ! i \<and> can_bind p \<and> (\<forall>j<i. \<not> can_bind (ps ! j)) \<and> probed = take (Suc i) ps"
proof (induction ps arbitrary: probed)
  case Nil
  then show ?case by simp
next
  case (Cons q qs)
  show ?case
  proof (cases "can_bind q")
    case True
    with Cons.prems have "q = p" "probed = [p]" by auto
    with True show ?thesis by (intro exI [of _ 0]) simp
  next
    case False
    obtain r pr where rp: "probe_ports can_bind qs = (r, pr)" by (cases "probe_ports can_bind qs")
    with Cons.prems False have r: "r = Inr p" and pr: "probed = q # pr" by simp_all
    from Cons.IH [of pr] rp r obtain i where i: "i < length qs" "p = qs ! i" "can_bind p"
      "\<forall>j<i. \<not> can_bind (qs ! j)" "pr = take (Suc i) qs" by auto
    have "\<forall>j<Suc i. \<not> can_bind ((q # qs) ! j)"
      using False i(4) by (auto simp: less_Suc_eq_0_disj)
    with i pr show ?thesis by (intro exI [of _ "Suc i"]) simp
  qed
qed

lemma probe_ports_Inl:
  "probe_ports can_bind ps = (Inl e, probed) \<Longrightarrow>
   e = ''No available ports in range 9500-9599'' \<and> probed = ps \<and> (\<forall>q\<in>set ps. \<not> can_bind q)"
proof (induction ps arbitrary: probed)
  case Nil
  then show ?case by simp
next
  case (Cons q qs)
  obtain r pr where rp: "probe_ports can_bind qs = (r, pr)" by (cases "probe_ports can_bind qs")
  from Cons.prems have nb: "\<not> can_bind q" by (auto split: if_splits)
  with Cons.prems rp have "r = Inl e" "probed = q # pr" by simp_all
  with Cons.IH [of pr] rp nb show ?case by simp
qed

lemma probe_ports_none:
  "\<forall>q\<in>set ps. \<not> can_bind q \<Longrightarrow>
   probe_ports can_bind ps = (Inl ''No available ports in range 9500-9599'', ps)"
  by (induction ps) simp_all

lemma unat_port: "n < 65536 \<Longrightarrow> unat (of_nat n :: 16 word) = n"
  by (simp add: unat_of_nat)

lemma map_unat_of_nat_upt:
  "b \<le> 65536 \<Longrightarrow> map unat (map of_nat [a..<b] :: 16 word list) = [a..<b]"
proof -
  assume b: "b \<le> 65536"
  have "map (\<lambda>n. unat (of_nat n :: 16 word)) [a..<b] = [a..<b]"
    by (rule map_idI) (use b in \<open>simp add: unat_port\<close>)
  then show ?thesis by (simp add: comp_def)
qed

lemma map_unat_port_range: "map unat port_range = [9500..<9600]"
  unfolding port_range_def by (rule map_unat_of_nat_upt) simp

lemma length_port_range: "length port_range = 100"
  by (simp add: port_range_def del: upt_rec_numeral)

lemma unat_nth_port_range: "i < 100 \<Longrightarrow> unat (port_range ! i) = 9500 + i"
proof -
  assume i: "i < 100"
  have "unat (port_range ! i) = map unat port_range ! i"
    using i by (simp add: length_port_range)
  also have "\<dots> = 9500 + i"
    unfolding map_unat_port_range using i by (intro nth_upt) simp
  finally show ?thesis .
qed

lemma in_port_range: "9500 \<le> unat q \<Longrightarrow> unat q \<le> 9599 \<Longrightarrow> q = port_range ! (unat q - 9500)"
proof -
  assume a: "9500 \<le> unat q" "unat q \<le> 9599"
  have "unat (port_range ! (unat q - 9500)) = unat q"
    using a by (simp add: unat_nth_port_range)
  then show ?thesis by (simp add: word_unat_eq_iff)
qed

text \<open>
  Claim C4. \<^verbatim>\<open>find_available_port\<close> attempts a bind on 9500, 9501, ... in ascending
  order and stops at the first port that can be bound. A returned port lies in
  [9500, 9599], can be bound, and no smaller port of the range can; the ports probed are
  exactly those from 9500 up to it. When no port of the range can be bound, all hundred
  ports were probed and the result is the error
  \<^verbatim>\<open>No available ports in range 9500-9599\<close>, not a port.
\<close>

theorem find_available_port_first_free:
  "(case find_available_port can_bind of
      (Inr p, probed) \<Rightarrow>
        9500 \<le> unat p \<and> unat p \<le> 9599 \<and> can_bind p
        \<and> (\<forall>q. 9500 \<le> unat q \<and> unat q < unat p \<longrightarrow> \<not> can_bind q)
        \<and> map unat probed = [9500..<Suc (unat p)]
    | (Inl e, probed) \<Rightarrow>
        e = ''No available ports in range 9500-9599''
        \<and> (\<forall>q. 9500 \<le> unat q \<and> unat q \<le> 9599 \<longrightarrow> \<not> can_bind q)
        \<and> map unat probed = [9500..<9600])
   \<and> ((\<forall>q. 9500 \<le> unat q \<and> unat q \<le> 9599 \<longrightarrow> \<not> can_bind q) \<longrightarrow>
        fst (find_available_port can_bind) = Inl ''No available ports in range 9500-9599'')"
proof -
  obtain r probed where rp: "find_available_port can_bind = (r, probed)"
    by (cases "find_available_port can_bind")
  have first: "(case r of
      Inr p \<Rightarrow>
        9500 \<le> unat p \<and> unat p \<le> 9599 \<and> can_bind p
        \<and> (\<forall>q. 9500 \<le> unat q \<and> unat q < unat p \<longrightarrow> \<not> can_bind q)
        \<and> map unat probed = [9500..<Suc (unat p)]
    | Inl e \<Rightarrow>
        e = ''No available ports in range 9500-9599''
        \<and> (\<forall>q. 9500 \<le> unat q \<and> unat q \<le> 9599 \<longrightarrow> \<not> can_bind q)
        \<and> map unat probed = [9500..<9600])"
  proof (cases r)
    case (Inr p)
    with rp have "probe_ports can_bind port_range = (Inr p, probed)"
      by (simp add: find_available_port_def)
    from probe_ports_Inr [OF this] obtain i where i: "i < 100" "p = port_range ! i" "can_bind p"
      "\<forall>j<i. \<not> can_bind (port_range ! j)" "probed = take (Suc i) port_range"
      by (auto simp: length_port_range)
    have up: "unat p = 9500 + i" using i(1,2) by (simp add: unat_nth_port_range)
    have lower: "\<forall>q. 9500 \<le> unat q \<and> unat q < unat p \<longrightarrow> \<not> can_bind q"
    proof (intro allI impI)
      fix q :: "16 word" assume q: "9500 \<le> unat q \<and> unat q < unat p"
      then have "q = port_range ! (unat q - 9500)" using up i(1) by (intro in_port_range) auto
      moreover have "unat q - 9500 < i" using q up by arith
      ultimately show "\<not> can_bind q" using i(4) by metis
    qed
    have "map unat probed = take (Suc i) [9500..<9600]"
      unfolding i(5) take_map [symmetric] map_unat_port_range ..
    also have "\<dots> = [9500..<9500 + Suc i]"
      by (rule take_upt) (use i(1) in simp)
    also have "\<dots> = [9500..<Suc (unat p)]"
      unfolding up by (simp del: upt_Suc upt_rec_numeral)
    finally have "map unat probed = [9500..<Suc (unat p)]" .
    with Inr up i(1,3) lower show ?thesis by simp
  next
    case (Inl e)
    with rp have "probe_ports can_bind port_range = (Inl e, probed)"
      by (simp add: find_available_port_def)
    from probe_ports_Inl [OF this] have e: "e = ''No available ports in range 9500-9599''"
      and pr: "probed = port_range" and nb: "\<forall>q\<in>set port_range. \<not> can_bind q" by auto
    have "\<forall>q. 9500 \<le> unat q \<and> unat q \<le> 9599 \<longrightarrow> \<not> can_bind q"
    proof (intro allI impI)
      fix q :: "16 word" assume q: "9500 \<le> unat q \<and> unat q \<le> 9599"
      then have "q = port_range ! (unat q - 9500)" by (intro in_port_range) auto
      moreover have "unat q - 9500 < length port_range"
        unfolding length_port_range using q by arith
      ultimately have "q \<in> set port_range" by (metis nth_mem)
      with nb show "\<not> can_bind q" by blast
    qed
    with Inl e pr show ?thesis by (simp add: map_unat_port_range del: upt_rec_numeral)
  qed
  have second: "(\<forall>q. 9500 \<le> unat q \<and> unat q \<le> 9599 \<longrightarrow> \<not> can_bind q) \<longrightarrow>
        fst (find_available_port can_bind) = Inl ''No available ports in range 9500-9599''"
  proof
    assume a: "\<forall>q. 9500 \<le> unat q \<and> unat q \<le> 9599 \<longrightarrow> \<not> can_bind q"
    have "\<forall>q\<in>set port_range. \<not> can_bind q"
    proof
      fix q assume "q \<in> set port_range"
      then obtain i where "i < 100" "q = port_range ! i"
        by (metis in_set_conv_nth length_port_range)
      then have "unat q = 9500 + i" by (simp add: unat_nth_port_range)
      with \<open>i < 100\<close> a show "\<not> can_bind q" by simp
    qed
    then show "fst (find_available_port can_bind) = Inl ''No available ports in range 9500-9599''"
      by (simp add: find_available_port_def probe_ports_none)
  qed
  from first second show ?thesis by (simp add: rp)
qed

theorem find_available_port_first_free_witness:
  "find_available_port (\<lambda>p. p = 9502 \<or> p = 9510) = (Inr 9502, [9500, 9501, 9502])
   \<and> fst (find_available_port (\<lambda>p. False)) = Inl ''No available ports in range 9500-9599''"
proof -
  have "fst (find_available_port (\<lambda>p. False)) = Inl ''No available ports in range 9500-9599''"
    using find_available_port_first_free [of "\<lambda>p. False"] by simp
  moreover have "find_available_port (\<lambda>p. p = 9502 \<or> p = 9510) = (Inr 9502, [9500, 9501, 9502])"
    by (simp add: find_available_port_def port_range_def upt_conv_Cons)
  ultimately show ?thesis by simp
qed

subsection \<open>The server manager\<close>

text \<open>
  Claim C1, as the code has it. For a repository id that already has an entry in the
  server map, \<^verbatim>\<open>start_repository_mcp_server\<close> is a no-op: the map, the spawned tasks and
  the bind attempts are unchanged, so nothing is probed, bound or spawned, and the id
  keeps its one entry. The value returned is the fixed message
  \<^verbatim>\<open>Server already running\<close>.
\<close>

theorem start_already_running_is_noop:
  "servers m rid \<noteq> None \<Longrightarrow>
   start_repository_mcp_server can_bind parse rid repo_path m = (Inr ''Server already running'', m)"
  by (simp add: start_repository_mcp_server_def)

theorem start_already_running_is_noop_witness:
  "start_repository_mcp_server (\<lambda>_. True) (\<lambda>_. Inl ''unreadable'') ''repo'' ''/work/repo''
     \<lparr>servers = [''repo'' \<mapsto> \<lparr>port = 9500, handle = 0, repository_path = ''/work/repo''\<rparr>],
      spawned = [(9500, \<lparr>al_name = ''lib'', al_description = '''', al_prompts = []\<rparr>)],
      aborted = [], bind_attempts = [9500]\<rparr>
   = (Inr ''Server already running'',
      \<lparr>servers = [''repo'' \<mapsto> \<lparr>port = 9500, handle = 0, repository_path = ''/work/repo''\<rparr>],
       spawned = [(9500, \<lparr>al_name = ''lib'', al_description = '''', al_prompts = []\<rparr>)],
       aborted = [], bind_attempts = [9500]\<rparr>)"
  using start_already_running_is_noop [of
     "\<lparr>servers = [''repo'' \<mapsto> \<lparr>port = 9500, handle = 0, repository_path = ''/work/repo''\<rparr>],
      spawned = [(9500, \<lparr>al_name = ''lib'', al_description = '''', al_prompts = []\<rparr>)],
      aborted = [], bind_attempts = [9500]\<rparr>" "''repo''" "\<lambda>_. True" "\<lambda>_. Inl ''unreadable''" "''/work/repo''"]
  by simp

text \<open>
  The message returned for a running repository does not carry its port: it is the same
  for an instance bound to 9500 and for one bound to 9577.
\<close>

theorem start_already_running_counterexample:
  "fst (start_repository_mcp_server (\<lambda>_. True) (\<lambda>_. Inl ''unreadable'') ''repo'' ''/work/repo''
     \<lparr>servers = [''repo'' \<mapsto> \<lparr>port = 9500, handle = 0, repository_path = ''/work/repo''\<rparr>],
      spawned = [], aborted = [], bind_attempts = []\<rparr>)
   = Inr ''Server already running''
   \<and> fst (start_repository_mcp_server (\<lambda>_. True) (\<lambda>_. Inl ''unreadable'') ''repo'' ''/work/repo''
     \<lparr>servers = [''repo'' \<mapsto> \<lparr>port = 9577, handle = 0, repository_path = ''/work/repo''\<rparr>],
      spawned = [], aborted = [], bind_attempts = []\<rparr>)
   = Inr ''Server already running''
   \<and> (9500 :: 16 word) \<noteq> 9577"
  by (simp add: start_repository_mcp_server_def)

text \<open>
  Claim C5, as the code has it. For a repository id without an entry in the server map,
  \<^verbatim>\<open>stop_repository_mcp_server\<close> leaves the map and the runtime unchanged and returns
  the error \<^verbatim>\<open>Server not found\<close>.
\<close>

theorem stop_not_running_is_error:
  "servers m rid = None \<Longrightarrow>
   stop_repository_mcp_server rid m = (Inl ''Server not found'', m)"
  by (simp add: stop_repository_mcp_server_def Let_def fun_upd_idem)

theorem stop_not_running_is_error_witness:
  "stop_repository_mcp_server ''other''
     \<lparr>servers = [''repo'' \<mapsto> \<lparr>port = 9500, handle = 0, repository_path = ''/work/repo''\<rparr>],
      spawned = [], aborted = [], bind_attempts = [9500]\<rparr>
   = (Inl ''Server not found'',
      \<lparr>servers = [''repo'' \<mapsto> \<lparr>port = 9500, handle = 0, repository_path = ''/work/repo''\<rparr>],
       spawned = [], aborted = [], bind_attempts = [9500]\<rparr>)"
  using stop_not_running_is_error [of
     "\<lparr>servers = [''repo'' \<mapsto> \<lparr>port = 9500, handle = 0, repository_path = ''/work/repo''\<rparr>],
      spawned = [], aborted = [], bind_attempts = [9500]\<rparr>" "''other''"]
  by simp

text \<open>Stopping a repository that is not running is an error, not a success.\<close>

theorem stop_not_running_counterexample:
  "fst (stop_repository_mcp_server ''repo''
     \<lparr>servers = Map.empty, spawned = [], aborted = [], bind_attempts = []\<rparr>)
   = Inl ''Server not found''"
  by (simp add: stop_repository_mcp_server_def Let_def)

subsection \<open>Reloading a library\<close>

lemma reload_agent_library_failure:
  "parse p = Inl e \<Longrightarrow> reload_agent_library parse i p b = (Inl e, b)"
  by (simp add: reload_agent_library_def)

lemma reload_agent_library_calls:
  "reload_calls (snd (reload_agent_library parse i p b)) = reload_calls b"
  by (simp add: reload_agent_library_def split: sum.splits option.splits)

lemma reload_agent_library_Inl_instances:
  "reload_agent_library parse i p b = (Inl e, b') \<Longrightarrow> instances b' = instances b"
  by (auto simp: reload_agent_library_def split: sum.splits)

lemma reload_agent_library_instances:
  "instances (snd (reload_agent_library parse i p b)) j = Some inst \<Longrightarrow>
   \<exists>old. instances b j = Some old \<and> inst_port inst = inst_port old
     \<and> (current_snapshot inst = current_snapshot old
         \<or> j = i \<and> parse p = Inr (current_snapshot inst))"
  by (auto simp: reload_agent_library_def split: sum.splits option.splits if_splits)

lemma reload_agent_library_dom:
  "dom (instances (snd (reload_agent_library parse i p b))) = dom (instances b)"
  by (auto simp: reload_agent_library_def split: sum.splits option.splits if_splits)

lemma invoke_reload_failure:
  "parse p = Inl e \<Longrightarrow>
   invoke_reload parse i p s
   = (Inl e, (fst s, (snd s)\<lparr>reload_calls := reload_calls (snd s) @ [(i, p)]\<rparr>))"
  by (simp add: invoke_reload_def reload_agent_library_failure)

lemma invoke_reload_backend:
  "snd (snd (invoke_reload parse i p s))
   = snd (reload_agent_library parse i p
            ((snd s)\<lparr>reload_calls := reload_calls (snd s) @ [(i, p)]\<rparr>))"
  by (simp add: invoke_reload_def Let_def split: prod.splits sum.splits)

lemma invoke_reload_Inl_instances:
  "invoke_reload parse i p s = (Inl e, (f', b')) \<Longrightarrow> instances b' = instances (snd s)"
  by (auto simp: invoke_reload_def Let_def split: prod.splits sum.splits
           dest: reload_agent_library_Inl_instances)

lemma invoke_reload_enabled:
  "autoReloadEnabled (fst (snd (invoke_reload parse i p s))) = autoReloadEnabled (fst s)"
  by (simp add: invoke_reload_def Let_def split: prod.splits sum.splits)

lemma try_given_path:
  "p \<noteq> [] \<Longrightarrow> reloadAgentLibrary_try parse i (Some p) s = invoke_reload parse i p s"
  by (simp add: reloadAgentLibrary_try_def)

lemma try_backend:
  "snd (snd (reloadAgentLibrary_try parse i po s)) = snd s
   \<or> (\<exists>p. snd (snd (reloadAgentLibrary_try parse i po s))
            = snd (reload_agent_library parse i p
                     ((snd s)\<lparr>reload_calls := reload_calls (snd s) @ [(i, p)]\<rparr>)))"
  by (auto simp: reloadAgentLibrary_try_def invoke_reload_backend Let_def
           split: prod.splits option.splits)

lemma try_Inl_instances:
  "reloadAgentLibrary_try parse i po s = (Inl e, (f', b')) \<Longrightarrow> instances b' = instances (snd s)"
  by (auto simp: reloadAgentLibrary_try_def Let_def split: prod.splits option.splits if_splits
           dest: invoke_reload_Inl_instances)

lemma getCurrentConfig_enabled:
  "autoReloadEnabled (snd (getCurrentConfig s)) = autoReloadEnabled (fst s)"
  by (simp add: getCurrentConfig_def split: sum.splits)

lemma try_enabled:
  "autoReloadEnabled (fst (snd (reloadAgentLibrary_try parse i po s))) = autoReloadEnabled (fst s)"
  by (auto simp: reloadAgentLibrary_try_def Let_def invoke_reload_enabled
           split: prod.splits option.splits)
     (metis getCurrentConfig_enabled snd_conv)+

lemma reloadAgentLibrary_backend:
  "snd (reloadAgentLibrary parse i po s) = snd (snd (reloadAgentLibrary_try parse i po s))"
  by (simp add: reloadAgentLibrary_def split: prod.splits sum.splits)

lemma reloadAgentLibrary_enabled:
  "autoReloadEnabled (fst (reloadAgentLibrary parse i po s)) = autoReloadEnabled (fst s)"
proof -
  obtain r f' b' where t: "reloadAgentLibrary_try parse i po s = (r, (f', b'))"
    by (metis prod.exhaust)
  have "autoReloadEnabled f' = autoReloadEnabled (fst s)"
    using try_enabled [of parse i po s] t by simp
  then show ?thesis by (cases r) (simp_all add: reloadAgentLibrary_def t)
qed

lemma reloadAgentLibrary_given_path_calls:
  "p \<noteq> [] \<Longrightarrow>
   reload_calls (snd (reloadAgentLibrary parse i (Some p) s)) = reload_calls (snd s) @ [(i, p)]"
  by (simp add: reloadAgentLibrary_backend try_given_path invoke_reload_backend
                reload_agent_library_calls)

text \<open>
  Claim C8. When the re-parse of a refresh fails, \<^verbatim>\<open>reloadAgentLibrary\<close> leaves the
  registry of instances and every served snapshot as they were: the backend differs only
  in the record of the invocation, and the failure becomes an error notification that
  names the repository; nothing is thrown to the caller. The same holds whenever the
  \<^verbatim>\<open>try\<close> block throws for any reason. In every case the set of running instances and their
  ports are unchanged, and a snapshot served afterwards is either the one served before
  or the complete result of a successful parse.
\<close>

theorem reload_failure_keeps_snapshot:
  "(\<forall>p e. p \<noteq> [] \<and> parse p = Inl e \<longrightarrow>
      reloadAgentLibrary parse rid (Some p) s =
        ((fst s)\<lparr>notification :=
                   Some \<lparr>n_type = error, n_message = AutoUpdateFailed rid e\<rparr>\<rparr>,
         (snd s)\<lparr>reload_calls := reload_calls (snd s) @ [(rid, p)]\<rparr>))
   \<and> (\<forall>e f' b'. reloadAgentLibrary_try parse rid po s = (Inl e, (f', b')) \<longrightarrow>
        instances b' = instances (snd s)
        \<and> reloadAgentLibrary parse rid po s =
            (f'\<lparr>notification :=
                   Some \<lparr>n_type = error, n_message = AutoUpdateFailed rid e\<rparr>\<rparr>, b'))
   \<and> dom (instances (snd (reloadAgentLibrary parse rid po s))) = dom (instances (snd s))
   \<and> (\<forall>j inst. instances (snd (reloadAgentLibrary parse rid po s)) j = Some inst \<longrightarrow>
        (\<exists>old. instances (snd s) j = Some old \<and> inst_port inst = inst_port old
           \<and> (current_snapshot inst = current_snapshot old
               \<or> j = rid \<and> (\<exists>p. parse p = Inr (current_snapshot inst)))))"
proof -
  have a: "\<forall>p e. p \<noteq> [] \<and> parse p = Inl e \<longrightarrow>
      reloadAgentLibrary parse rid (Some p) s =
        ((fst s)\<lparr>notification :=
                   Some \<lparr>n_type = error, n_message = AutoUpdateFailed rid e\<rparr>\<rparr>,
         (snd s)\<lparr>reload_calls := reload_calls (snd s) @ [(rid, p)]\<rparr>)"
    by (simp add: reloadAgentLibrary_def try_given_path invoke_reload_failure)
  have b: "\<forall>e f' b'. reloadAgentLibrary_try parse rid po s = (Inl e, (f', b')) \<longrightarrow>
        instances b' = instances (snd s)
        \<and> reloadAgentLibrary parse rid po s =
            (f'\<lparr>notification :=
                   Some \<lparr>n_type = error, n_message = AutoUpdateFailed rid e\<rparr>\<rparr>, b')"
    by (auto simp: reloadAgentLibrary_def dest: try_Inl_instances)
  have c: "dom (instances (snd (reloadAgentLibrary parse rid po s))) = dom (instances (snd s))"
  proof -
    from try_backend [of parse rid po s]
    show ?thesis
    proof
      assume "snd (snd (reloadAgentLibrary_try parse rid po s)) = snd s"
      then show ?thesis by (simp add: reloadAgentLibrary_backend)
    next
      assume "\<exists>p. snd (snd (reloadAgentLibrary_try parse rid po s))
                 = snd (reload_agent_library parse rid p
                          ((snd s)\<lparr>reload_calls := reload_calls (snd s) @ [(rid, p)]\<rparr>))"
      then obtain p where "snd (snd (reloadAgentLibrary_try parse rid po s))
                 = snd (reload_agent_library parse rid p
                          ((snd s)\<lparr>reload_calls := reload_calls (snd s) @ [(rid, p)]\<rparr>))" ..
      then show ?thesis by (simp add: reloadAgentLibrary_backend reload_agent_library_dom)
    qed
  qed
  have d: "\<forall>j inst. instances (snd (reloadAgentLibrary parse rid po s)) j = Some inst \<longrightarrow>
        (\<exists>old. instances (snd s) j = Some old \<and> inst_port inst = inst_port old
           \<and> (current_snapshot inst = current_snapshot old
               \<or> j = rid \<and> (\<exists>p. parse p = Inr (current_snapshot inst))))"
  proof (intro allI impI)
    fix j inst
    assume h: "instances (snd (reloadAgentLibrary parse rid po s)) j = Some inst"
    from try_backend [of parse rid po s]
    show "\<exists>old. instances (snd s) j = Some old \<and> inst_port inst = inst_port old
           \<and> (current_snapshot inst = current_snapshot old
               \<or> j = rid \<and> (\<exists>p. parse p = Inr (current_snapshot inst)))"
    proof
      assume "snd (snd (reloadAgentLibrary_try parse rid po s)) = snd s"
      with h show ?thesis by (simp add: reloadAgentLibrary_backend)
    next
      assume "\<exists>p. snd (snd (reloadAgentLibrary_try parse rid po s))
                 = snd (reload_agent_library parse rid p
                          ((snd s)\<lparr>reload_calls := reload_calls (snd s) @ [(rid, p)]\<rparr>))"
      then obtain p where "snd (snd (reloadAgentLibrary_try parse rid po s))
                 = snd (reload_agent_library parse rid p
                          ((snd s)\<lparr>reload_calls := reload_calls (snd s) @ [(rid, p)]\<rparr>))" ..
      with h have "instances (snd (reload_agent_library parse rid p
                     ((snd s)\<lparr>reload_calls := reload_calls (snd s) @ [(rid, p)]\<rparr>))) j = Some inst"
        by (simp add: reloadAgentLibrary_backend)
      from reload_agent_library_instances [OF this] show ?thesis by auto
    qed
  qed
  from a b c d show ?thesis by blast
qed

theorem reload_failure_keeps_snapshot_witness:
  "sample_parse ''/work/elsewhere'' = Inl ''agent_index.yml not found''
   \<and> reloadAgentLibrary sample_parse ''r1'' (Some ''/work/elsewhere'') (initial_stores, sample_backend)
     = (initial_stores\<lparr>notification :=
          Some \<lparr>n_type = error,
                n_message = AutoUpdateFailed ''r1'' ''agent_index.yml not found''\<rparr>\<rparr>,
        sample_backend\<lparr>reload_calls := [(''r1'', ''/work/elsewhere'')]\<rparr>)
   \<and> instances (snd (reloadAgentLibrary sample_parse ''r1'' (Some ''/work/elsewhere'')
        (initial_stores, sample_backend))) ''r1''
     = Some \<lparr>inst_port = 9500, current_snapshot = old_library\<rparr>"
proof -
  have p: "sample_parse ''/work/elsewhere'' = Inl ''agent_index.yml not found''"
    by (simp add: sample_parse_def)
  have "reloadAgentLibrary sample_parse ''r1'' (Some ''/work/elsewhere'') (initial_stores, sample_backend)
     = (initial_stores\<lparr>notification :=
          Some \<lparr>n_type = error,
                n_message = AutoUpdateFailed ''r1'' ''agent_index.yml not found''\<rparr>\<rparr>,
        sample_backend\<lparr>reload_calls := reload_calls sample_backend @ [(''r1'', ''/work/elsewhere'')]\<rparr>)"
    using reload_failure_keeps_snapshot [of sample_parse "''r1''" "(initial_stores, sample_backend)"
            "Some ''/work/elsewhere''"] p
    by simp
  with p show ?thesis by (simp add: sample_backend_def)
qed

subsection \<open>The file-change listener\<close>

lemma listener_unfold:
  "file_change_listener parse ev s =
     autoReload_callback parse ev (autoReloadEnabled (fst s))
       (showChangeNotification ev
          ((fst s)\<lparr>fileChangeEvents := take 100 (ev # fileChangeEvents (fst s)),
                   watchedRepositories :=
                     map (\<lambda>repo. if wr_repository_id repo = repository_id ev
                                  then repo\<lparr>last_change := Some ev\<rparr> else repo)
                       (watchedRepositories (fst s)),
                   autoReload_subscribers := autoReload_subscribers (fst s) @ [ev]\<rparr>),
        snd s)"
  by (simp add: file_change_listener_def Let_def showChangeNotification_def)

lemma listener_enabled:
  "autoReloadEnabled (fst (file_change_listener parse ev s)) = autoReloadEnabled (fst s)"
  by (simp add: listener_unfold autoReload_callback_def reloadAgentLibrary_enabled
                showChangeNotification_def Let_def)

lemma listener_matching_calls:
  "autoReloadEnabled (fst s) \<Longrightarrow> shouldAutoReload ev \<Longrightarrow>
   before_first ''/.agent_library'' (file_path ev) \<noteq> [] \<Longrightarrow>
   reload_calls (snd (file_change_listener parse ev s))
   = reload_calls (snd s) @ [(repository_id ev, before_first ''/.agent_library'' (file_path ev))]"
  by (simp add: listener_unfold autoReload_callback_def Let_def
                reloadAgentLibrary_given_path_calls)

text \<open>
  Claim C6, as the code has it. The listener has no debounce and does not read the
  timestamps: while auto-reload is enabled, every delivered event that
  \<open>shouldAutoReload\<close> accepts, and whose path has a non-empty part before
  \<^verbatim>\<open>/.agent_library\<close>, invokes \<^verbatim>\<open>reload_agent_library\<close> once, so a burst of \<open>n\<close> such events
  causes \<open>n\<close> reloads, in the order of delivery.
\<close>

theorem every_matching_event_reloads:
  "autoReloadEnabled (fst s) \<Longrightarrow>
   \<forall>ev\<in>set evs. shouldAutoReload ev \<and> before_first ''/.agent_library'' (file_path ev) \<noteq> [] \<Longrightarrow>
   reload_calls (snd (deliver_all parse evs s))
   = reload_calls (snd s)
     @ map (\<lambda>ev. (repository_id ev, before_first ''/.agent_library'' (file_path ev))) evs"
proof (induction evs arbitrary: s)
  case Nil
  show ?case by (simp add: deliver_all_def)
next
  case (Cons e evs)
  have step: "deliver_all parse (e # evs) s = deliver_all parse evs (file_change_listener parse e s)"
    by (simp add: deliver_all_def)
  have en: "autoReloadEnabled (fst (file_change_listener parse e s))"
    using Cons.prems(1) by (simp add: listener_enabled)
  have rest: "\<forall>ev\<in>set evs. shouldAutoReload ev \<and> before_first ''/.agent_library'' (file_path ev) \<noteq> []"
    using Cons.prems(2) by simp
  have one: "reload_calls (snd (file_change_listener parse e s))
             = reload_calls (snd s) @ [(repository_id e, before_first ''/.agent_library'' (file_path e))]"
    using Cons.prems by (intro listener_matching_calls) simp_all
  show ?case
    using Cons.IH [OF en rest] by (simp add: step one)
qed

theorem every_matching_event_reloads_witness:
  "autoReloadEnabled (fst (initial_stores, sample_backend))
   \<and> shouldAutoReload (sample_event ''/work/repo/.agent_library/guide.md'' ''2025-01-01T00:00:00.000Z'')
   \<and> reload_calls (snd (deliver_all sample_parse
        [sample_event ''/work/repo/.agent_library/guide.md'' ''2025-01-01T00:00:00.000Z'',
         sample_event ''/work/repo/.agent_library/agent_index.yml'' ''2025-01-01T00:00:00.050Z'']
        (initial_stores, sample_backend)))
     = [(''r1'', ''/work/repo''), (''r1'', ''/work/repo'')]"
proof -
  let ?e1 = "sample_event ''/work/repo/.agent_library/guide.md'' ''2025-01-01T00:00:00.000Z''"
  let ?e2 = "sample_event ''/work/repo/.agent_library/agent_index.yml'' ''2025-01-01T00:00:00.050Z''"
  have en: "autoReloadEnabled (fst (initial_stores, sample_backend))"
    by (simp add: initial_stores_def)
  have m1: "shouldAutoReload ?e1" by code_simp
  have m2: "shouldAutoReload ?e2" by code_simp
  have p1: "before_first ''/.agent_library'' (file_path ?e1) = ''/work/repo''" by code_simp
  have p2: "before_first ''/.agent_library'' (file_path ?e2) = ''/work/repo''" by code_simp
  have all: "\<forall>ev\<in>set [?e1, ?e2]. shouldAutoReload ev
               \<and> before_first ''/.agent_library'' (file_path ev) \<noteq> []"
    using m1 m2 p1 p2 by simp
  have "reload_calls (snd (deliver_all sample_parse [?e1, ?e2] (initial_stores, sample_backend)))
        = reload_calls (snd (initial_stores, sample_backend))
          @ map (\<lambda>ev. (repository_id ev, before_first ''/.agent_library'' (file_path ev))) [?e1, ?e2]"
    using every_matching_event_reloads [OF en all] .
  then have "reload_calls (snd (deliver_all sample_parse [?e1, ?e2] (initial_stores, sample_backend)))
        = [(''r1'', ''/work/repo''), (''r1'', ''/work/repo'')]"
    by (simp add: p1 p2) (simp add: sample_event_def sample_backend_def)
  with en m1 show ?thesis by simp
qed

text \<open>
  Two events for the same repository and file, 50 milliseconds apart, both within the
  specification's filter, cause two reloads.
\<close>

theorem debounce_counterexample:
  "spec_filter (sample_event ''/work/repo/.agent_library/guide.md'' ''2025-01-01T00:00:00.000Z'')
   \<and> spec_filter (sample_event ''/work/repo/.agent_library/guide.md'' ''2025-01-01T00:00:00.050Z'')
   \<and> reload_calls (snd (deliver_all sample_parse
        [sample_event ''/work/repo/.agent_library/guide.md'' ''2025-01-01T00:00:00.000Z'',
         sample_event ''/work/repo/.agent_library/guide.md'' ''2025-01-01T00:00:00.050Z'']
        (initial_stores, sample_backend)))
     = [(''r1'', ''/work/repo''), (''r1'', ''/work/repo'')]"
  by code_simp

text \<open>
  The filter of the code is the wider one: an event whose file name is the index file or
  ends in \<^verbatim>\<open>.md\<close> is accepted by \<open>shouldAutoReload\<close>, wherever the file lies.
\<close>

lemma starts_with_iff: "starts_with p s \<longleftrightarrow> (\<exists>t. s = p @ t)"
  by (induction p s rule: starts_with.induct) auto

lemma includes_str_iff: "includes_str s pat \<longleftrightarrow> (\<exists>a b. s = a @ pat @ b)"
proof (induction s)
  case Nil
  show ?case by simp
next
  case (Cons c cs)
  show ?case
  proof
    assume "includes_str (c # cs) pat"
    then consider "starts_with pat (c # cs)" | "includes_str cs pat" by auto
    then show "\<exists>a b. c # cs = a @ pat @ b"
    proof cases
      case 1
      then obtain t where "c # cs = pat @ t" by (auto simp: starts_with_iff)
      then have "c # cs = [] @ pat @ t" by simp
      then show ?thesis by blast
    next
      case 2
      with Cons obtain a b where "cs = a @ pat @ b" by auto
      then have "c # cs = (c # a) @ pat @ b" by simp
      then show ?thesis by blast
    qed
  next
    assume "\<exists>a b. c # cs = a @ pat @ b"
    then obtain a b where ab: "c # cs = a @ pat @ b" by auto
    show "includes_str (c # cs) pat"
    proof (cases a)
      case Nil
      with ab have "starts_with pat (c # cs)" by (auto simp: starts_with_iff)
      then show ?thesis by simp
    next
      case (Cons x xs)
      with ab have "cs = xs @ pat @ b" by simp
      with Cons.IH have "includes_str cs pat" by auto
      then show ?thesis by simp
    qed
  qed
qed

lemma last_segment_is_suffix: "\<exists>a. p = a @ last_segment p"
proof -
  have "rev p = takeWhile (\<lambda>c. c \<noteq> CHR ''/'') (rev p) @ dropWhile (\<lambda>c. c \<noteq> CHR ''/'') (rev p)"
    by simp
  then have "rev (rev p) = rev (dropWhile (\<lambda>c. c \<noteq> CHR ''/'') (rev p)) @ last_segment p"
    unfolding last_segment_def by (metis rev_append)
  then show ?thesis by auto
qed

lemma ends_with_iff: "ends_with s e \<longleftrightarrow> (\<exists>a. s = a @ e)"
proof
  assume "ends_with s e"
  then obtain t where "rev s = rev e @ t" by (auto simp: ends_with_def starts_with_iff)
  then have "rev (rev s) = rev t @ e" by (metis rev_append rev_rev_ident)
  then show "\<exists>a. s = a @ e" by auto
next
  assume "\<exists>a. s = a @ e"
  then show "ends_with s e" by (auto simp: ends_with_def starts_with_iff)
qed

lemma includes_lowered:
  "p = a @ pat \<Longrightarrow> toLowerCase pat = pat \<Longrightarrow> includes_str (toLowerCase p) pat"
proof -
  assume "p = a @ pat" "toLowerCase pat = pat"
  then have "toLowerCase p = toLowerCase a @ pat @ []" by (simp add: toLowerCase_def)
  then show ?thesis unfolding includes_str_iff by blast
qed

lemma shouldAutoReload_accepts_spec_filter:
  "index_or_markdown (file_path ev) \<Longrightarrow> shouldAutoReload ev"
proof -
  assume h: "index_or_markdown (file_path ev)"
  obtain a where a: "file_path ev = a @ last_segment (file_path ev)"
    using last_segment_is_suffix by blast
  have l1: "toLowerCase ''agent_index.yml'' = ''agent_index.yml''"
    by (simp add: toLowerCase_def lower_char_def)
  have l2: "toLowerCase ''agent_index.yaml'' = ''agent_index.yaml''"
    by (simp add: toLowerCase_def lower_char_def)
  have l3: "toLowerCase ''.md'' = ''.md''"
    by (simp add: toLowerCase_def lower_char_def)
  from h consider "last_segment (file_path ev) = ''agent_index.yml''"
    | "last_segment (file_path ev) = ''agent_index.yaml''"
    | "ends_with (last_segment (file_path ev)) ''.md''"
    by (auto simp: index_or_markdown_def Let_def)
  then show ?thesis
  proof cases
    case 1
    with a have "file_path ev = a @ ''agent_index.yml''" by simp
    from includes_lowered [OF this l1] show ?thesis
      by (simp add: shouldAutoReload_def importantFiles_def l1)
  next
    case 2
    with a have "file_path ev = a @ ''agent_index.yaml''" by simp
    from includes_lowered [OF this l2] show ?thesis
      by (simp add: shouldAutoReload_def importantFiles_def l2)
  next
    case 3
    then obtain c where "last_segment (file_path ev) = c @ ''.md''"
      unfolding ends_with_iff by blast
    with a have "file_path ev = (a @ c) @ ''.md''" by simp
    from includes_lowered [OF this l3] show ?thesis
      by (simp add: shouldAutoReload_def importantFiles_def l3)
  qed
qed

text \<open>
  Claim C7, as the code has it. An event that \<open>shouldAutoReload\<close> rejects, that is, whose
  lower-cased path contains none of \<^verbatim>\<open>agent_index.yml\<close>, \<^verbatim>\<open>agent_index.yaml\<close> and \<^verbatim>\<open>.md\<close>,
  triggers no reload: its delivery leaves the backend, and with it every served snapshot,
  unchanged.
\<close>

theorem non_matching_event_no_reload:
  "\<not> shouldAutoReload ev \<Longrightarrow> snd (file_change_listener parse ev s) = snd s"
  by (simp add: listener_unfold autoReload_callback_def)

theorem non_matching_event_no_reload_witness:
  "\<not> shouldAutoReload (sample_event ''/work/repo/src/main.rs'' ''t0'')
   \<and> snd (file_change_listener sample_parse (sample_event ''/work/repo/src/main.rs'' ''t0'')
            (initial_stores, sample_backend)) = sample_backend"
proof -
  have n: "\<not> shouldAutoReload (sample_event ''/work/repo/src/main.rs'' ''t0'')" by code_simp
  from non_matching_event_no_reload [OF n, of sample_parse "(initial_stores, sample_backend)"] n
  show ?thesis by simp
qed

text \<open>
  The code's filter is a substring test on the whole path. A markdown file outside any
  \<^verbatim>\<open>.agent_library\<close> directory triggers a reload, and so does a file under
  \<^verbatim>\<open>.agent_library\<close> whose name merely contains \<^verbatim>\<open>.md\<close>; the latter replaces the served
  snapshot.
\<close>

theorem filter_counterexample:
  "\<not> under_agent_library (file_path (sample_event ''/work/site/README.md'' ''t0''))
   \<and> reload_calls (snd (file_change_listener sample_parse
        (sample_event ''/work/site/README.md'' ''t0'') (initial_stores, sample_backend)))
     = [(''r1'', ''/work/site/README.md'')]
   \<and> \<not> index_or_markdown (file_path (sample_event ''/work/repo/.agent_library/notes.md.bak'' ''t0''))
   \<and> instances sample_backend ''r1'' = Some \<lparr>inst_port = 9500, current_snapshot = old_library\<rparr>
   \<and> instances (snd (file_change_listener sample_parse
        (sample_event ''/work/repo/.agent_library/notes.md.bak'' ''t0'')
        (initial_stores, sample_backend))) ''r1''
     = Some \<lparr>inst_port = 9500, current_snapshot = sample_library\<rparr>
   \<and> old_library \<noteq> sample_library"
  by code_simp

end
